theory Spec2Isabelle
  imports Main
begin

section \<open>The jenkins\_script module\<close>

text \<open>
  The module \<^verbatim>\<open>lib/ansible/modules/web_infrastructure/jenkins_script.py\<close> consists of
  one function, \<^verbatim>\<open>main\<close>. It checks the credentials, renders the script with Python's
  \<^verbatim>\<open>string.Template\<close> when \<^verbatim>\<open>args\<close> is given, posts the script with \<^verbatim>\<open>fetch_url\<close>
  and classifies the answer. The module is written for Python 2 and Python 3 (its import of
  \<^verbatim>\<open>urlencode\<close> tries both). Python strings are modelled as \<^typ>\<open>string\<close>, lists
  of 8-bit characters; what the response gives back when it is read is a \<^verbatim>\<open>str\<close> under
  Python 2 and a \<^verbatim>\<open>bytes\<close> object under Python 3, and the model keeps the two apart.
\<close>

subsection \<open>Python values and \<^verbatim>\<open>str()\<close>\<close>

text \<open>
  The values of the \<^verbatim>\<open>args\<close> dictionary are scalars: strings, integers, booleans
  and \<^verbatim>\<open>None\<close>. Floating point numbers and nested containers are not modelled.
\<close>

datatype pyval = PStr string | PInt int | PBool bool | PNone

fun str_nat :: "nat \<Rightarrow> string" where
  "str_nat n =
     (if n < 10 then [''0123456789'' ! n]
      else str_nat (n div 10) @ [''0123456789'' ! (n mod 10)])"

declare str_nat.simps [simp del]

definition str_int :: "int \<Rightarrow> string" where
  "str_int i = (if i < 0 then CHR ''-'' # str_nat (nat (- i)) else str_nat (nat i))"

fun py_str :: "pyval \<Rightarrow> string" where
  "py_str (PStr s) = s"
| "py_str (PInt i) = str_int i"
| "py_str (PBool b) = (if b then ''True'' else ''False'')"
| "py_str PNone = ''None''"

text \<open>Python's \<^verbatim>\<open>sub in s\<close> on strings: \<^verbatim>\<open>sub\<close> occurs in \<^verbatim>\<open>s\<close> as a contiguous piece.\<close>

fun starts_with :: "string \<Rightarrow> string \<Rightarrow> bool" where
  "starts_with [] s = True"
| "starts_with (a # as) [] = False"
| "starts_with (a # as) (c # cs) = (a = c \<and> starts_with as cs)"

fun py_in :: "string \<Rightarrow> string \<Rightarrow> bool" where
  "py_in sub [] = (sub = [])"
| "py_in sub (c # cs) = (starts_with sub (c # cs) \<or> py_in sub cs)"

subsection \<open>\<^verbatim>\<open>string.Template\<close>\<close>

text \<open>
  \<^verbatim>\<open>string.Template\<close> belongs to Python's standard library. Its pattern is
  \<^verbatim>\<open>\$(?:(?P<escaped>\$) | (?P<named>[_a-z][_a-z0-9]*) | {(?P<braced>[_a-z][_a-z0-9]*)} | (?P<invalid>))\<close>
  with the flag \<^verbatim>\<open>IGNORECASE\<close>, and \<^verbatim>\<open>substitute\<close> is \<^verbatim>\<open>pattern.sub(convert, template)\<close>:
  the template is read once from left to right, every match of the pattern is handed to
  \<^verbatim>\<open>convert\<close>, and the text between the matches is kept.
\<close>

definition idstart :: "char \<Rightarrow> bool" where
  "idstart c = (c \<in> set ''_abcdefghijklmnopqrstuvwxyzABCDEFGHIJKLMNOPQRSTUVWXYZ'')"

definition idchar :: "char \<Rightarrow> bool" where
  "idchar c = (idstart c \<or> c \<in> set ''0123456789'')"

text \<open>
  A piece of the scanned template: one character outside every match, or a match with
  the group that matched.
\<close>

datatype piece = Text char | Escaped | Named string | Braced string | Invalid

text \<open>
  \<open>match_at cs\<close> is the match of the alternatives of the pattern on the text \<open>cs\<close> that
  follows a delimiter, with the text that follows the match. The alternatives are tried
  in the order of the pattern; the last one matches the empty string.
\<close>

definition match_at :: "string \<Rightarrow> piece \<times> string" where
  "match_at cs =
     (case cs of
        [] \<Rightarrow> (Invalid, [])
      | d # ds \<Rightarrow>
          if d = CHR ''$'' then (Escaped, ds)
          else if idstart d then (Named (takeWhile idchar cs), dropWhile idchar cs)
          else if d = CHR ''{'' then
            (case ds of
               [] \<Rightarrow> (Invalid, cs)
             | e # es \<Rightarrow>
                 if idstart e \<and> starts_with ''}'' (dropWhile idchar es)
                 then (Braced (e # takeWhile idchar es), tl (dropWhile idchar es))
                 else (Invalid, cs))
          else (Invalid, cs))"

function scan :: "string \<Rightarrow> piece list" where
  "scan [] = []"
| "scan (c # cs) =
     (if c = CHR ''$'' then fst (match_at cs) # scan (snd (match_at cs))
      else Text c # scan cs)"
  by pat_completeness auto
termination
proof (relation "measure length")
  show "wf (measure length)" by simp
next
  fix c :: char and cs :: string
  have "length (dropWhile idchar xs) \<le> length xs" for xs
    by (simp add: length_dropWhile_le)
  from this [of cs] this [of "tl (tl cs)"] have "length (snd (match_at cs)) \<le> length cs"
    by (auto simp: match_at_def split: list.splits)
  then show "(snd (match_at cs), c # cs) \<in> measure length" by simp
next
  fix c :: char and cs :: string
  show "(cs, c # cs) \<in> measure length" by simp
qed

declare scan.simps(2) [simp del]

text \<open>
  The exceptions that a run can end with: \<^verbatim>\<open>KeyError\<close> and \<^verbatim>\<open>ValueError\<close> come from
  \<^verbatim>\<open>substitute\<close>, \<^verbatim>\<open>TypeError\<close> from a test \<^verbatim>\<open>sub in s\<close> with a \<^verbatim>\<open>str\<close> on the left and
  a \<^verbatim>\<open>bytes\<close> object on the right.
\<close>

datatype exn = KeyError string | ValueError | TypeError

text \<open>
  \<^verbatim>\<open>convert\<close>: a named or braced placeholder is looked up in the mapping and the value
  is turned into a string (a missing key raises \<^verbatim>\<open>KeyError\<close>), the escape gives the
  delimiter, an invalid placeholder raises \<^verbatim>\<open>ValueError\<close> (whose message, the line and
  column, is not modelled).
\<close>

fun convert :: "(string \<rightharpoonup> pyval) \<Rightarrow> piece \<Rightarrow> exn + string" where
  "convert mapping (Named name) =
     (case mapping name of None \<Rightarrow> Inl (KeyError name) | Some v \<Rightarrow> Inr (py_str v))"
| "convert mapping (Braced name) =
     (case mapping name of None \<Rightarrow> Inl (KeyError name) | Some v \<Rightarrow> Inr (py_str v))"
| "convert mapping Escaped = Inr ''$''"
| "convert mapping Invalid = Inl ValueError"
| "convert mapping (Text c) = Inr [c]"

text \<open>
  \<^verbatim>\<open>pattern.sub\<close> calls the function on the matches from left to right; the first
  exception ends the call.
\<close>

fun pattern_sub :: "(piece \<Rightarrow> exn + string) \<Rightarrow> piece list \<Rightarrow> exn + string" where
  "pattern_sub f [] = Inr []"
| "pattern_sub f (p # ps) =
     (case f p of
        Inl e \<Rightarrow> Inl e
      | Inr s \<Rightarrow> (case pattern_sub f ps of Inl e \<Rightarrow> Inl e | Inr r \<Rightarrow> Inr (s @ r)))"

definition substitute :: "string \<Rightarrow> (string \<rightharpoonup> pyval) \<Rightarrow> exn + string" where
  "substitute template mapping = pattern_sub (convert mapping) (scan template)"

text \<open>
  The names of the placeholders of a template, in the order of their matches, and whether
  the template is free of invalid placeholders (\<^verbatim>\<open>Template.is_valid\<close>).
\<close>

fun piece_names :: "piece \<Rightarrow> string list" where
  "piece_names (Named name) = [name]"
| "piece_names (Braced name) = [name]"
| "piece_names p = []"

definition placeholders :: "string \<Rightarrow> string list" where
  "placeholders template = concat (map piece_names (scan template))"

definition is_valid :: "string \<Rightarrow> bool" where
  "is_valid template = (Invalid \<notin> set (scan template))"

subsection \<open>The template syntax as the specification describes it\<close>

text \<open>
  The specification describes a template by what it is made of: literal text, the escape
  \<^verbatim>\<open>$$\<close>, a braced placeholder \<^verbatim>\<open>${name}\<close> and a bare placeholder \<^verbatim>\<open>$name\<close>.
  \<open>template_of\<close> writes such a sequence of segments down, \<open>rendering\<close> is the text that
  the specification promises for it. Neither is taken from the code: they are what
  \<open>substitute\<close> is compared with.
\<close>

datatype segment = Literal string | Dollar | Brace string | Bare string

fun written :: "segment \<Rightarrow> string" where
  "written (Literal s) = s"
| "written Dollar = ''$$''"
| "written (Brace name) = ''${'' @ name @ ''}''"
| "written (Bare name) = ''$'' @ name"

definition template_of :: "segment list \<Rightarrow> string" where
  "template_of segs = concat (map written segs)"

fun replacement :: "(string \<rightharpoonup> pyval) \<Rightarrow> segment \<Rightarrow> string" where
  "replacement mapping (Literal s) = s"
| "replacement mapping Dollar = ''$''"
| "replacement mapping (Brace name) = py_str (the (mapping name))"
| "replacement mapping (Bare name) = py_str (the (mapping name))"

definition rendering :: "(string \<rightharpoonup> pyval) \<Rightarrow> segment list \<Rightarrow> string" where
  "rendering mapping segs = concat (map (replacement mapping) segs)"

fun segment_names :: "segment \<Rightarrow> string list" where
  "segment_names (Brace name) = [name]"
| "segment_names (Bare name) = [name]"
| "segment_names s = []"

text \<open>
  A name is an identifier: a letter or an underscore, then letters, digits and
  underscores. Literal text holds no delimiter, and the text after a bare placeholder does
  not go on with an identifier character (it would belong to the name).
\<close>

fun is_identifier :: "string \<Rightarrow> bool" where
  "is_identifier [] = False"
| "is_identifier (c # cs) = (idstart c \<and> list_all idchar cs)"

fun ends_name :: "string \<Rightarrow> bool" where
  "ends_name [] = True"
| "ends_name (c # cs) = (\<not> idchar c)"

fun well_formed :: "segment list \<Rightarrow> bool" where
  "well_formed [] = True"
| "well_formed (Literal s # segs) = (CHR ''$'' \<notin> set s \<and> well_formed segs)"
| "well_formed (Dollar # segs) = well_formed segs"
| "well_formed (Brace name # segs) = (is_identifier name \<and> well_formed segs)"
| "well_formed (Bare name # segs) =
     (is_identifier name \<and> ends_name (template_of segs) \<and> well_formed segs)"

text \<open>
  The pieces that the scan has to find for a segment, and the segment that a piece of a
  scan stands for (an invalid placeholder is a delimiter that stands alone).
\<close>

fun pieces_of :: "segment \<Rightarrow> piece list" where
  "pieces_of (Literal s) = map Text s"
| "pieces_of Dollar = [Escaped]"
| "pieces_of (Brace name) = [Braced name]"
| "pieces_of (Bare name) = [Named name]"

fun segment_of :: "piece \<Rightarrow> segment" where
  "segment_of (Text c) = Literal [c]"
| "segment_of Escaped = Dollar"
| "segment_of (Braced name) = Brace name"
| "segment_of (Named name) = Bare name"
| "segment_of Invalid = Literal ''$''"

definition segments :: "string \<Rightarrow> segment list" where
  "segments template = map segment_of (scan template)"

subsection \<open>\<^verbatim>\<open>urlencode\<close>\<close>

text \<open>
  \<^verbatim>\<open>urlencode\<close> is the standard library's as well (\<^verbatim>\<open>urllib\<close> in Python 2,
  \<^verbatim>\<open>urllib.parse\<close> in Python 3): every key and value goes through \<^verbatim>\<open>quote_plus\<close>, the
  pairs are written \<^verbatim>\<open>key=value\<close> and joined by \<^verbatim>\<open>&\<close>. \<^verbatim>\<open>quote_plus\<close> keeps the
  characters of \<^verbatim>\<open>always_safe\<close>, writes a blank as \<^verbatim>\<open>+\<close> and every other character as
  \<^verbatim>\<open>%XX\<close> with two upper-case hexadecimal digits. The set \<^verbatim>\<open>always_safe\<close> is the one
  of the Python versions the module was written for (2.6 to 3.6).
\<close>

definition always_safe :: string where
  "always_safe = ''ABCDEFGHIJKLMNOPQRSTUVWXYZabcdefghijklmnopqrstuvwxyz0123456789_.-''"

definition hex_digit :: "nat \<Rightarrow> char" where
  "hex_digit n = ''0123456789ABCDEF'' ! (n mod 16)"

definition quote_char :: "char \<Rightarrow> string" where
  "quote_char c =
     (if c \<in> set always_safe then [c]
      else if c = CHR '' '' then ''+''
      else [CHR ''%'', hex_digit (of_char c div 16), hex_digit (of_char c)])"

definition quote_plus :: "string \<Rightarrow> string" where
  "quote_plus s = concat (map quote_char s)"

fun join :: "string \<Rightarrow> string list \<Rightarrow> string" where
  "join sep [] = []"
| "join sep [x] = x"
| "join sep (x # y # ys) = x @ sep @ join sep (y # ys)"

definition urlencode :: "(string \<times> string) list \<Rightarrow> string" where
  "urlencode query = join ''&'' (map (\<lambda>(k, v). quote_plus k @ ''='' @ quote_plus v) query)"

subsection \<open>The module\<close>

text \<open>
  \<open>params\<close> is \<^verbatim>\<open>module.params\<close> as \<^verbatim>\<open>AnsibleModule\<close> builds it from the argument
  specification: \<^verbatim>\<open>script\<close> is required, \<^verbatim>\<open>url\<close> and \<^verbatim>\<open>validate_certs\<close> have defaults,
  \<^verbatim>\<open>user\<close>, \<^verbatim>\<open>password\<close> and \<^verbatim>\<open>args\<close> default to \<^verbatim>\<open>None\<close>.
\<close>

record params =
  script :: string
  url :: string
  validate_certs :: bool
  user :: "string option"
  password :: "string option"
  args :: "(string \<rightharpoonup> pyval) option"

text \<open>
  \<open>module\<close> is the module object that \<^verbatim>\<open>fetch_url\<close> receives: the parameters above and
  the three keys that \<^verbatim>\<open>main\<close> adds to \<^verbatim>\<open>module.params\<close> when a user is given. A key that
  was not added is \<open>None\<close> (\<open>False\<close> for \<^verbatim>\<open>force_basic_auth\<close>).
\<close>

record module =
  spec_params :: params
  url_username :: "string option"
  url_password :: "string option"
  force_basic_auth :: bool

text \<open>The arguments of the one call of \<^verbatim>\<open>fetch_url\<close>, and what the call returns.\<close>

record fetch_call =
  fetch_module :: module
  fetch_url_arg :: string
  fetch_data :: string
  fetch_method :: string

text \<open>
  What \<^verbatim>\<open>resp.read()\<close> returns: a \<^verbatim>\<open>str\<close> under Python 2, a \<^verbatim>\<open>bytes\<close> object under
  Python 3.
\<close>

datatype pydata = Str string | Bytes string

record response =
  status :: int
  msg :: string
  body :: pydata

text \<open>
  The calls that \<^verbatim>\<open>main\<close> makes to its collaborators, in the order in which it makes
  them.
\<close>

datatype call =
    is_substitute: Template_substitute string "string \<rightharpoonup> pyval"
  | is_fetch: Fetch_url fetch_call

text \<open>
  How \<^verbatim>\<open>main\<close> ends: \<^verbatim>\<open>module.fail_json(msg=...)\<close> and \<^verbatim>\<open>module.exit_json(output=...)\<close>
  both leave the process; an exception that nothing catches ends it as well.
\<close>

datatype outcome = Fail_json string | Exit_json string | Raised exn

text \<open>Lines 142 to 147: the credentials.\<close>

definition set_auth :: "params \<Rightarrow> string + module" where
  "set_auth p =
     (case user p of
        None \<Rightarrow>
          Inr \<lparr>spec_params = p, url_username = None, url_password = None,
               force_basic_auth = False\<rparr>
      | Some u \<Rightarrow>
          (case password p of
             None \<Rightarrow> Inl ''password required when user provided''
           | Some pw \<Rightarrow>
               Inr \<lparr>spec_params = p, url_username = Some u, url_password = Some pw,
                    force_basic_auth = True\<rparr>))"

text \<open>Lines 150 to 154: the script that is sent.\<close>

definition script_contents :: "params \<Rightarrow> (exn + string) \<times> call list" where
  "script_contents p =
     (case args p of
        Some mapping \<Rightarrow>
          (substitute (script p) mapping, [Template_substitute (script p) mapping])
      | None \<Rightarrow> (Inr (script p), []))"

text \<open>Lines 157 to 160: the arguments of \<^verbatim>\<open>fetch_url\<close>.\<close>

definition request :: "module \<Rightarrow> string \<Rightarrow> fetch_call" where
  "request m contents =
     \<lparr>fetch_module = m,
      fetch_url_arg = url (spec_params m) @ ''/scriptText'',
      fetch_data = urlencode [(''script'', contents)],
      fetch_method = ''POST''\<rparr>"

text \<open>
  Lines 162 to 172: the answer. The body is read only when the status is 200. The test
  \<^verbatim>\<open>'Exception:' in result\<close> of line 167 is the first use of what was read: on a
  \<^verbatim>\<open>bytes\<close> object it raises \<^verbatim>\<open>TypeError\<close>, whatever the object holds, and nothing
  catches it.
\<close>

definition classify :: "response \<Rightarrow> outcome" where
  "classify r =
     (if status r \<noteq> 200 then Fail_json (''HTTP error '' @ str_int (status r) @ '' '' @ msg r)
      else
        (case body r of
           Bytes result \<Rightarrow> Raised TypeError
         | Str result \<Rightarrow>
             if py_in ''Exception:'' result \<and> py_in ''at java.lang.Thread'' result
             then Fail_json (''script failed with stacktrace:'' @ [CHR 0x0A] @ '' '' @ result)
             else Exit_json result))"

text \<open>
  \<^verbatim>\<open>main\<close>, with \<^verbatim>\<open>fetch_url\<close> as a parameter. The result is the way the run ends and
  the calls made up to there.
\<close>

definition main :: "(fetch_call \<Rightarrow> response) \<Rightarrow> params \<Rightarrow> outcome \<times> call list" where
  "main fetch_url p =
     (case set_auth p of
        Inl m \<Rightarrow> (Fail_json m, [])
      | Inr module \<Rightarrow>
          (case script_contents p of
             (Inl e, calls) \<Rightarrow> (Raised e, calls)
           | (Inr contents, calls) \<Rightarrow>
               (classify (fetch_url (request module contents)),
                calls @ [Fetch_url (request module contents)])))"

subsection \<open>Example runs\<close>

text \<open>
  A transport that gives the same answer to every request, and the parameters of a run
  with credentials and one argument.
\<close>

definition answer :: "int \<Rightarrow> string \<Rightarrow> pydata \<Rightarrow> fetch_call \<Rightarrow> response" where
  "answer st text b c = \<lparr>status = st, msg = text, body = b\<rparr>"

definition example_params :: params where
  "example_params =
     \<lparr>script = ''println(${x})'', url = ''http://localhost:8080'', validate_certs = True,
      user = Some ''admin'', password = Some ''secret'', args = Some [''x'' \<mapsto> PInt 7]\<rparr>"

definition example_call :: fetch_call where
  "example_call =
     \<lparr>fetch_module = \<lparr>spec_params = example_params, url_username = Some ''admin'',
                       url_password = Some ''secret'', force_basic_auth = True\<rparr>,
      fetch_url_arg = ''http://localhost:8080/scriptText'',
      fetch_data = ''script=println%287%29'',
      fetch_method = ''POST''\<rparr>"

section \<open>Properties of the run\<close>

subsection \<open>Auxiliary facts\<close>

lemma script_contents_no_fetch: "Fetch_url c \<notin> set (snd (script_contents p))"
  by (simp add: script_contents_def split: option.splits)

text \<open>
  A run that calls \<^verbatim>\<open>fetch_url\<close> has passed the check of the credentials and has
  rendered the script; the call is its last one and the answer decides how the run ends.
\<close>

lemma main_fetch:
  assumes "Fetch_url c \<in> set (snd (main f p))"
  obtains m contents where
    "set_auth p = Inr m" "fst (script_contents p) = Inr contents" "c = request m contents"
    "main f p = (classify (f c), snd (script_contents p) @ [Fetch_url c])"
proof (cases "set_auth p")
  case (Inl e)
  with assms show ?thesis by (simp add: main_def)
next
  case (Inr m)
  show ?thesis
  proof (cases "fst (script_contents p)")
    case (Inl e)
    with Inr assms script_contents_no_fetch [of c p] show ?thesis
      by (simp add: main_def split: prod.splits sum.splits)
  next
    case (Inr contents)
    with \<open>set_auth p = Inr m\<close> assms script_contents_no_fetch [of c p] that [of m contents]
    show ?thesis
      by (auto simp: main_def split: prod.splits sum.splits)
  qed
qed

lemma starts_with_iff: "starts_with a s \<longleftrightarrow> (\<exists>b. s = a @ b)"
  by (induction a s rule: starts_with.induct) auto

text \<open>\<open>py_in\<close> is the substring test.\<close>

lemma py_in_iff: "py_in sub s \<longleftrightarrow> (\<exists>a b. s = a @ sub @ b)"
proof (induction s)
  case Nil
  show ?case by auto
next
  case (Cons c cs)
  have "(\<exists>a b. c # cs = a @ sub @ b) \<longleftrightarrow> (\<exists>b. c # cs = sub @ b) \<or> (\<exists>a b. cs = a @ sub @ b)"
    (is "?L \<longleftrightarrow> ?P \<or> ?R")
  proof
    assume ?L
    then obtain a b where ab: "c # cs = a @ sub @ b" by blast
    show "?P \<or> ?R"
    proof (cases a)
      case Nil
      with ab show ?thesis by auto
    next
      case (Cons x xs)
      with ab have "cs = xs @ sub @ b" by simp
      then show ?thesis by blast
    qed
  next
    assume "?P \<or> ?R"
    then show ?L
    proof
      assume ?P
      then obtain b where "c # cs = [] @ sub @ b" by auto
      then show ?L by blast
    next
      assume ?R
      then obtain a b where "c # cs = (c # a) @ sub @ b" by auto
      then show ?L by blast
    qed
  qed
  with Cons show ?case by (simp add: starts_with_iff)
qed

text \<open>The example run: the script is rendered and posted once, with the credentials.\<close>

lemma example_script: "substitute ''println(${x})'' [''x'' \<mapsto> PInt 7] = Inr ''println(7)''"
  by (simp add: substitute_def scan.simps match_at_def idstart_def idchar_def str_int_def
      str_nat.simps)

lemma example_data: "urlencode [(''script'', ''println(7)'')] = ''script=println%287%29''"
  by (simp add: urlencode_def quote_plus_def quote_char_def always_safe_def hex_digit_def)

lemma example_run:
  "main f example_params
     = (classify (f example_call),
        [Template_substitute ''println(${x})'' [''x'' \<mapsto> PInt 7], Fetch_url example_call])"
  by (simp add: main_def set_auth_def script_contents_def request_def example_script
      example_data example_params_def example_call_def)

subsection \<open>The check of the credentials\<close>

text \<open>
  C2. When \<^verbatim>\<open>user\<close> is set and \<^verbatim>\<open>password\<close> is not, the run ends with
  \<^verbatim>\<open>fail_json\<close> and the message \<^verbatim>\<open>password required when user provided\<close>, and it has made
  no call at all: \<^verbatim>\<open>fetch_url\<close> is not called.
\<close>

theorem user_without_password:
  assumes "user p = Some u" and "password p = None"
  shows "main fetch_url p = (Fail_json ''password required when user provided'', [])"
  using assms by (simp add: main_def set_auth_def)

theorem user_without_password_witness:
  "user (example_params\<lparr>password := None\<rparr>) = Some ''admin''
   \<and> password (example_params\<lparr>password := None\<rparr>) = None
   \<and> main (answer 200 ''OK'' (Str ''Result: true'')) (example_params\<lparr>password := None\<rparr>)
       = (Fail_json ''password required when user provided'', [])"
  using user_without_password
    [of "example_params\<lparr>password := None\<rparr>" "''admin''" "answer 200 ''OK'' (Str ''Result: true'')"]
  by (simp add: example_params_def)

text \<open>
  C8. When \<^verbatim>\<open>password\<close> is set and \<^verbatim>\<open>user\<close> is not, the run does not end with the
  message about the password. The password is not used: if the script renders, the one
  request is made with a module that has neither \<^verbatim>\<open>url_username\<close> nor \<^verbatim>\<open>url_password\<close>
  nor \<^verbatim>\<open>force_basic_auth\<close>, and no request of the run carries any of them.
\<close>

theorem password_without_user:
  assumes "user p = None" and "password p = Some pw"
  shows "fst (main fetch_url p) \<noteq> Fail_json ''password required when user provided''
       \<and> (\<forall>contents. fst (script_contents p) = Inr contents \<longrightarrow>
             snd (main fetch_url p) = snd (script_contents p) @
               [Fetch_url (request \<lparr>spec_params = p, url_username = None, url_password = None,
                                   force_basic_auth = False\<rparr> contents)])
       \<and> (\<forall>c. Fetch_url c \<in> set (snd (main fetch_url p)) \<longrightarrow>
             url_username (fetch_module c) = None \<and> url_password (fetch_module c) = None
           \<and> \<not> force_basic_auth (fetch_module c))"
proof -
  let ?m = "\<lparr>spec_params = p, url_username = None, url_password = None, force_basic_auth = False\<rparr>"
  have m: "set_auth p = Inr ?m"
    using assms by (simp add: set_auth_def)
  have "classify r \<noteq> Fail_json ''password required when user provided''" for r
    by (simp add: classify_def split: pydata.splits)
  with m have 1: "fst (main fetch_url p) \<noteq> Fail_json ''password required when user provided''"
    by (simp add: main_def split: prod.splits sum.splits)
  have 2: "snd (main fetch_url p) = snd (script_contents p) @ [Fetch_url (request ?m contents)]"
    if "fst (script_contents p) = Inr contents" for contents
    using that m by (cases "script_contents p") (simp add: main_def)
  have 3: "url_username (fetch_module c) = None \<and> url_password (fetch_module c) = None
      \<and> \<not> force_basic_auth (fetch_module c)" if "Fetch_url c \<in> set (snd (main fetch_url p))" for c
    using that
  proof (rule main_fetch)
    fix m' contents
    assume "set_auth p = Inr m'" and "c = request m' contents"
    with m show ?thesis by (simp add: request_def)
  qed
  from 1 2 3 show ?thesis by blast
qed

theorem password_without_user_witness:
  "user (example_params\<lparr>user := None\<rparr>) = None
   \<and> password (example_params\<lparr>user := None\<rparr>) = Some ''secret''
   \<and> fst (script_contents (example_params\<lparr>user := None\<rparr>)) = Inr ''println(7)''
   \<and> main (answer 200 ''OK'' (Str ''Result: true'')) (example_params\<lparr>user := None\<rparr>)
       = (Exit_json ''Result: true'',
          [Template_substitute ''println(${x})'' [''x'' \<mapsto> PInt 7],
           Fetch_url
             \<lparr>fetch_module = \<lparr>spec_params = example_params\<lparr>user := None\<rparr>,
                               url_username = None, url_password = None,
                               force_basic_auth = False\<rparr>,
              fetch_url_arg = ''http://localhost:8080/scriptText'',
              fetch_data = ''script=println%287%29'',
              fetch_method = ''POST''\<rparr>])"
  using password_without_user
    [of "example_params\<lparr>user := None\<rparr>" "''secret''" "answer 200 ''OK'' (Str ''Result: true'')"]
  by (simp add: main_def set_auth_def script_contents_def request_def example_script
      example_data example_params_def classify_def answer_def)

text \<open>
  C10. The credentials are checked before the script is rendered: when \<^verbatim>\<open>user\<close> is set,
  \<^verbatim>\<open>password\<close> is not, and \<^verbatim>\<open>substitute\<close> would raise on the script and the arguments,
  the run ends with the message about the password and without any call, so
  \<^verbatim>\<open>substitute\<close> is not called. With a password the same run ends with the exception of
  \<^verbatim>\<open>substitute\<close>.
\<close>

theorem credentials_checked_first:
  assumes "user p = Some u" and "password p = None"
    and "args p = Some mapping" and "substitute (script p) mapping = Inl e"
  shows "main fetch_url p = (Fail_json ''password required when user provided'', [])
       \<and> main fetch_url (p\<lparr>password := Some pw\<rparr>)
           = (Raised e, [Template_substitute (script p) mapping])"
  using assms by (simp add: main_def set_auth_def script_contents_def)

theorem credentials_checked_first_witness:
  "user (example_params\<lparr>password := None, args := Some Map.empty\<rparr>) = Some ''admin''
   \<and> password (example_params\<lparr>password := None, args := Some Map.empty\<rparr>) = None
   \<and> substitute ''println(${x})'' Map.empty = Inl (KeyError ''x'')
   \<and> main (answer 200 ''OK'' (Str ''Result: true''))
        (example_params\<lparr>password := None, args := Some Map.empty\<rparr>)
       = (Fail_json ''password required when user provided'', [])
   \<and> main (answer 200 ''OK'' (Str ''Result: true''))
        (example_params\<lparr>password := Some ''secret'', args := Some Map.empty\<rparr>)
       = (Raised (KeyError ''x''), [Template_substitute ''println(${x})'' Map.empty])"
proof -
  have e: "substitute ''println(${x})'' Map.empty = Inl (KeyError ''x'')"
    by (simp add: substitute_def scan.simps match_at_def idstart_def idchar_def)
  show ?thesis
    using e credentials_checked_first
      [of "example_params\<lparr>password := None, args := Some Map.empty\<rparr>" "''admin''" Map.empty
        "KeyError ''x''" "answer 200 ''OK'' (Str ''Result: true'')" "''secret''"]
    by (simp add: example_params_def)
qed

subsection \<open>The request\<close>

text \<open>
  C7. A run that reaches \<^verbatim>\<open>fetch_url\<close> calls it exactly once. The call has the method
  \<^verbatim>\<open>POST\<close>, the URL is the parameter \<^verbatim>\<open>url\<close> followed by \<^verbatim>\<open>/scriptText\<close>, the data are the
  form encoding of the one field \<^verbatim>\<open>script\<close> with the rendered script, and when \<^verbatim>\<open>user\<close>
  and \<^verbatim>\<open>password\<close> are both given the module carries them as \<^verbatim>\<open>url_username\<close> and
  \<^verbatim>\<open>url_password\<close> with \<^verbatim>\<open>force_basic_auth\<close> set. The URL and the data hold nothing
  else, so the credentials are not part of them.
\<close>

theorem single_post_request:
  assumes "Fetch_url c \<in> set (snd (main fetch_url p))"
  shows "filter is_fetch (snd (main fetch_url p)) = [Fetch_url c]
       \<and> fetch_method c = ''POST''
       \<and> fetch_url_arg c = url p @ ''/scriptText''
       \<and> (\<exists>contents. fst (script_contents p) = Inr contents
              \<and> fetch_data c = urlencode [(''script'', contents)]
              \<and> fetch_data c = ''script='' @ quote_plus contents)
       \<and> spec_params (fetch_module c) = p
       \<and> (\<forall>u pw. user p = Some u \<and> password p = Some pw \<longrightarrow>
              url_username (fetch_module c) = Some u
            \<and> url_password (fetch_module c) = Some pw
            \<and> force_basic_auth (fetch_module c))"
proof -
  from assms obtain m contents where m: "set_auth p = Inr m"
    and contents: "fst (script_contents p) = Inr contents"
    and c: "c = request m contents"
    and run: "main fetch_url p = (classify (fetch_url c), snd (script_contents p) @ [Fetch_url c])"
    by (rule main_fetch)
  have "filter is_fetch (snd (script_contents p)) = []"
    by (simp add: script_contents_def split: option.splits)
  with run have one: "filter is_fetch (snd (main fetch_url p)) = [Fetch_url c]"
    by simp
  have sp: "spec_params m = p"
    using m by (auto simp: set_auth_def split: option.splits)
  have key: "quote_plus ''script'' = ''script''"
    by (simp add: quote_plus_def quote_char_def always_safe_def)
  have data: "fetch_data c = urlencode [(''script'', contents)]"
    "fetch_data c = ''script='' @ quote_plus contents"
    using c key by (simp_all add: request_def urlencode_def)
  have auth: "url_username (fetch_module c) = Some u \<and> url_password (fetch_module c) = Some pw
      \<and> force_basic_auth (fetch_module c)" if "user p = Some u \<and> password p = Some pw" for u pw
    using that m c by (auto simp: set_auth_def request_def)
  from one c sp contents data auth show ?thesis
    by (simp add: request_def)
qed

theorem single_post_request_witness:
  "Fetch_url example_call \<in> set (snd (main (answer 200 ''OK'' (Str ''Result: true'')) example_params))
   \<and> filter is_fetch (snd (main (answer 200 ''OK'' (Str ''Result: true'')) example_params))
       = [Fetch_url example_call]
   \<and> fetch_method example_call = ''POST''
   \<and> fetch_url_arg example_call = ''http://localhost:8080/scriptText''
   \<and> fetch_data example_call = ''script=println%287%29''
   \<and> url_username (fetch_module example_call) = Some ''admin''
   \<and> url_password (fetch_module example_call) = Some ''secret''
   \<and> force_basic_auth (fetch_module example_call)"
proof -
  have "Fetch_url example_call \<in> set (snd (main (answer 200 ''OK'' (Str ''Result: true'')) example_params))"
    by (simp add: example_run)
  from this single_post_request [OF this] show ?thesis
    by (simp add: example_call_def)
qed

subsection \<open>The answer\<close>

text \<open>
  A run that reads a \<^verbatim>\<open>str\<close> with the status 200 (Python 2) ends with \<^verbatim>\<open>fail_json\<close>
  and the message \<^verbatim>\<open>script failed with stacktrace:\<close>, a line break, a blank and the
  whole body exactly if the body contains \<^verbatim>\<open>Exception:\<close> and contains
  \<^verbatim>\<open>at java.lang.Thread\<close>; it ends with \<^verbatim>\<open>exit_json\<close> and the body itself as
  \<^verbatim>\<open>output\<close> exactly if the body does not contain both.
\<close>

lemma status_200_str:
  assumes "Fetch_url c \<in> set (snd (main fetch_url p))"
    and "status (fetch_url c) = 200" and "body (fetch_url c) = Str result"
  shows "(fst (main fetch_url p)
            = Fail_json (''script failed with stacktrace:'' @ [CHR 0x0A] @ '' '' @ result)
          \<longleftrightarrow> (\<exists>a b. result = a @ ''Exception:'' @ b)
              \<and> (\<exists>a b. result = a @ ''at java.lang.Thread'' @ b))
       \<and> (fst (main fetch_url p) = Exit_json result
          \<longleftrightarrow> \<not> ((\<exists>a b. result = a @ ''Exception:'' @ b)
              \<and> (\<exists>a b. result = a @ ''at java.lang.Thread'' @ b)))"
proof -
  from assms(1) have "fst (main fetch_url p) = classify (fetch_url c)"
    by (rule main_fetch) simp
  with assms(2,3) show ?thesis
    by (simp add: classify_def py_in_iff del: append_assoc)
qed

text \<open>
  A run that reads a \<^verbatim>\<open>bytes\<close> object with the status 200 (Python 3) ends with
  \<^verbatim>\<open>TypeError\<close>, whatever the object holds.
\<close>

lemma status_200_bytes:
  assumes "Fetch_url c \<in> set (snd (main fetch_url p))"
    and "status (fetch_url c) = 200" and "body (fetch_url c) = Bytes result"
  shows "fst (main fetch_url p) = Raised TypeError"
proof -
  from assms(1) have "fst (main fetch_url p) = classify (fetch_url c)"
    by (rule main_fetch) simp
  with assms(2,3) show ?thesis
    by (simp add: classify_def)
qed

text \<open>
  C1 says that a run whose answer has the status 200 ends with \<^verbatim>\<open>exit_json\<close> and the
  body as \<^verbatim>\<open>output\<close> unless the body holds the two marks of a stack trace. Under
  Python 3 the code does not do so: the example run, answered with the status 200 and
  the bytes \<^verbatim>\<open>Result: true\<close>, calls \<^verbatim>\<open>fetch_url\<close> and ends with \<^verbatim>\<open>TypeError\<close>, not with
  \<^verbatim>\<open>exit_json\<close>. Answered with the same text as a \<^verbatim>\<open>str\<close> it ends as C1 says.
\<close>

theorem status_200_bytes_raises:
  "Fetch_url example_call
     \<in> set (snd (main (answer 200 ''OK'' (Bytes ''Result: true'')) example_params))
   \<and> status (answer 200 ''OK'' (Bytes ''Result: true'') example_call) = 200
   \<and> fst (main (answer 200 ''OK'' (Bytes ''Result: true'')) example_params) = Raised TypeError
   \<and> fst (main (answer 200 ''OK'' (Bytes ''Result: true'')) example_params)
       \<noteq> Exit_json ''Result: true''
   \<and> fst (main (answer 200 ''OK'' (Str ''Result: true'')) example_params)
       = Exit_json ''Result: true''"
proof -
  have "answer 200 ''OK'' (Bytes ''Result: true'') example_call
      = \<lparr>status = 200, msg = ''OK'', body = Bytes ''Result: true''\<rparr>"
    and "answer 200 ''OK'' (Str ''Result: true'') example_call
      = \<lparr>status = 200, msg = ''OK'', body = Str ''Result: true''\<rparr>"
    by (simp_all add: answer_def)
  then show ?thesis
    by (simp add: example_run classify_def)
qed

text \<open>
  C3. When the answer to the request of a run has a status other than 200, the run ends
  with \<^verbatim>\<open>fail_json\<close> and the message \<^verbatim>\<open>HTTP error\<close>, the status and the text of the
  status, whatever the body is: the run does not end with \<^verbatim>\<open>exit_json\<close>, not with the
  message about a stack trace and not with an exception.
\<close>

theorem non_200_outcome:
  assumes "Fetch_url c \<in> set (snd (main fetch_url p))"
    and "status (fetch_url c) \<noteq> 200"
  shows "fst (main fetch_url p)
           = Fail_json (''HTTP error '' @ str_int (status (fetch_url c)) @ '' '' @ msg (fetch_url c))
       \<and> fst (main fetch_url p) \<noteq> Exit_json out
       \<and> fst (main fetch_url p)
           \<noteq> Fail_json (''script failed with stacktrace:'' @ [CHR 0x0A] @ '' '' @ result)
       \<and> fst (main fetch_url p) \<noteq> Raised e"
proof -
  from assms(1) have "fst (main fetch_url p) = classify (fetch_url c)"
    by (rule main_fetch) simp
  with assms(2) show ?thesis
    by (simp add: classify_def)
qed

theorem non_200_outcome_witness:
  "Fetch_url example_call
     \<in> set (snd (main (answer 500 ''Server Error'' (Str ''Exception: at java.lang.Thread''))
               example_params))
   \<and> status (answer 500 ''Server Error'' (Str ''Exception: at java.lang.Thread'') example_call) \<noteq> 200
   \<and> fst (main (answer 500 ''Server Error'' (Str ''Exception: at java.lang.Thread'')) example_params)
       = Fail_json ''HTTP error 500 Server Error''"
proof -
  let ?f = "answer 500 ''Server Error'' (Str ''Exception: at java.lang.Thread'')"
  have c: "Fetch_url example_call \<in> set (snd (main ?f example_params))"
    by (simp add: example_run)
  have r: "?f example_call
      = \<lparr>status = 500, msg = ''Server Error'', body = Str ''Exception: at java.lang.Thread''\<rparr>"
    by (simp add: answer_def)
  have s: "status (?f example_call) \<noteq> 200"
    by (simp add: r)
  have "str_int 500 = ''500''"
    by (simp add: str_int_def str_nat.simps)
  with c s non_200_outcome [OF c s] show ?thesis
    by (simp add: r)
qed

section \<open>Properties of the rendering\<close>

subsection \<open>Auxiliary facts about \<open>pattern_sub\<close>\<close>

lemma pattern_sub_append:
  "pattern_sub f (ps @ qs) =
     (case pattern_sub f ps of
        Inl e \<Rightarrow> Inl e
      | Inr a \<Rightarrow> (case pattern_sub f qs of Inl e \<Rightarrow> Inl e | Inr b \<Rightarrow> Inr (a @ b)))"
  by (induction ps) (simp_all split: sum.splits)

lemma pattern_sub_Text: "pattern_sub (convert mapping) (map Text s) = Inr s"
  by (induction s) simp_all

lemma pattern_sub_Inl:
  "pattern_sub f ps = Inl e \<Longrightarrow> \<exists>p \<in> set ps. f p = Inl e"
  by (induction ps) (auto split: sum.splits)

lemma pattern_sub_fails:
  "p \<in> set ps \<Longrightarrow> f p = Inl e \<Longrightarrow> \<exists>e'. pattern_sub f ps = Inl e'"
  by (induction ps) (auto split: sum.splits)





lemma convert_Inl:
  "convert m p = Inl e \<Longrightarrow>
     e = ValueError \<or> (\<exists>k. e = KeyError k \<and> k \<in> set (piece_names p) \<and> m k = None)"
  by (cases p) (auto split: option.splits)

subsection \<open>Auxiliary facts about \<open>scan\<close>\<close>

lemma idstart_idchar: "idstart c \<Longrightarrow> idchar c"
  by (simp add: idchar_def)

lemma idchar_special [simp]:
  "\<not> idchar CHR ''$''" "\<not> idchar CHR ''{''" "\<not> idchar CHR ''}''"
  by (simp_all add: idchar_def idstart_def)

lemma idstart_special [simp]: "\<not> idstart CHR ''$''" "\<not> idstart CHR ''{''"
  by (simp_all add: idstart_def)

lemma scan_text:
  "CHR ''$'' \<notin> set s \<Longrightarrow> scan (s @ rest) = map Text s @ scan rest"
  by (induction s) (auto simp: scan.simps)

lemma scan_escape: "scan (''$$'' @ rest) = Escaped # scan rest"
  by (simp add: scan.simps match_at_def)

lemma name_then_rest:
  "list_all idchar name \<Longrightarrow> ends_name rest \<Longrightarrow>
     takeWhile idchar (name @ rest) = name \<and> dropWhile idchar (name @ rest) = rest"
  by (induction name) (cases rest; simp)+

lemma scan_bare:
  assumes "is_identifier name" and "ends_name rest"
  shows "scan (''$'' @ name @ rest) = Named name # scan rest"
proof (cases name)
  case Nil
  with assms show ?thesis by simp
next
  case (Cons c cs)
  with assms have c: "idstart c" and cs: "list_all idchar cs" by simp_all
  from c have "idchar c" by (rule idstart_idchar)
  with cs have "list_all idchar (c # cs)" by simp
  from name_then_rest [OF this assms(2)]
  have "takeWhile idchar (c # cs @ rest) = c # cs" "dropWhile idchar (c # cs @ rest) = rest"
    by simp_all
  moreover from c have "c \<noteq> CHR ''$''" by auto
  ultimately show ?thesis
    using c Cons by (simp add: scan.simps match_at_def)
qed

lemma scan_brace:
  assumes "is_identifier name"
  shows "scan (''${'' @ name @ ''}'' @ rest) = Braced name # scan rest"
proof (cases name)
  case Nil
  with assms show ?thesis by simp
next
  case (Cons c cs)
  with assms have c: "idstart c" and cs: "list_all idchar cs" by simp_all
  have "ends_name (''}'' @ rest)" by simp
  from name_then_rest [OF cs this]
  have "takeWhile idchar (cs @ CHR ''}'' # rest) = cs"
    "dropWhile idchar (cs @ CHR ''}'' # rest) = CHR ''}'' # rest"
    by simp_all
  then show ?thesis
    using c Cons by (simp add: scan.simps match_at_def)
qed

text \<open>
  The scan of a well-formed sequence of segments finds the segments again, one piece for
  each character of literal text and one for each other segment.
\<close>

lemma scan_template_of:
  "well_formed segs \<Longrightarrow> scan (template_of segs) = concat (map pieces_of segs)"
proof (induction segs)
  case Nil
  show ?case by (simp add: template_of_def)
next
  case (Cons seg segs)
  then have rest: "scan (template_of segs) = concat (map pieces_of segs)"
    by (cases seg) simp_all
  have split: "template_of (x # segs) = written x @ template_of segs" for x
    by (simp add: template_of_def)
  show ?case
  proof (cases seg)
    case (Literal s)
    with Cons.prems rest show ?thesis by (simp add: split scan_text)
  next
    case Dollar
    with rest scan_escape [of "template_of segs"] show ?thesis by (simp add: split)
  next
    case (Brace name)
    with Cons.prems rest scan_brace [of name "template_of segs"] show ?thesis
      by (simp add: split)
  next
    case (Bare name)
    with Cons.prems rest scan_bare [of name "template_of segs"] show ?thesis
      by (simp add: split)
  qed
qed

lemma placeholders_template_of:
  "well_formed segs \<Longrightarrow> placeholders (template_of segs) = concat (map segment_names segs)"
proof -
  have "concat (map piece_names (concat (map pieces_of segs))) = concat (map segment_names segs)"
  proof (induction segs)
    case Nil
    show ?case by simp
  next
    case (Cons seg segs)
    have "concat (map piece_names (map Text s)) = []" for s
      by (induction s) simp_all
    with Cons show ?case by (cases seg) simp_all
  qed
  then show "well_formed segs \<Longrightarrow> ?thesis"
    by (simp add: placeholders_def scan_template_of)
qed

text \<open>
  Every template is the writing of the segments of its scan, and these are well formed
  when the template has no invalid placeholder.
\<close>

lemma ends_name_dropWhile: "ends_name (dropWhile idchar xs)"
  by (induction xs) simp_all

lemma match_at_written:
  "written (segment_of (fst (match_at cs))) @ snd (match_at cs) = CHR ''$'' # cs"
proof -
  have brace: "e # takeWhile idchar es @ CHR ''}'' # tl (dropWhile idchar es) = e # es"
    if "starts_with ''}'' (dropWhile idchar es)" for e es
  proof -
    from that obtain b where "dropWhile idchar es = CHR ''}'' # b"
      by (auto simp: starts_with_iff)
    then have "takeWhile idchar es @ CHR ''}'' # tl (dropWhile idchar es)
        = takeWhile idchar es @ dropWhile idchar es"
      by simp
    then show ?thesis by simp
  qed
  show ?thesis
    by (auto simp: match_at_def brace split: list.splits)
qed

lemma template_of_segments: "template_of (segments template) = template"
proof (induction template rule: scan.induct)
  case 1
  show ?case by (simp add: segments_def template_of_def)
next
  case (2 c cs)
  show ?case
  proof (cases "c = CHR ''$''")
    case True
    with 2 have "template_of (segments (snd (match_at cs))) = snd (match_at cs)"
      by simp
    with True match_at_written [of cs] show ?thesis
      by (simp add: segments_def template_of_def scan.simps)
  next
    case False
    with 2 show ?thesis
      by (simp add: segments_def template_of_def scan.simps)
  qed
qed

lemma match_at_names:
  "fst (match_at cs) = Named name \<Longrightarrow> is_identifier name \<and> ends_name (snd (match_at cs))"
  "fst (match_at cs) = Braced name \<Longrightarrow> is_identifier name"
  by (auto simp: match_at_def ends_name_dropWhile idstart_idchar list_all_iff
      split: list.splits if_splits dest: set_takeWhileD)

lemma well_formed_segments: "is_valid template \<Longrightarrow> well_formed (segments template)"
proof (induction template rule: scan.induct)
  case 1
  show ?case by (simp add: segments_def)
next
  case (2 c cs)
  show ?case
  proof (cases "c = CHR ''$''")
    case True
    let ?rest = "snd (match_at cs)"
    from True "2.prems" have valid: "fst (match_at cs) \<noteq> Invalid" "is_valid ?rest"
      by (auto simp: is_valid_def scan.simps)
    with True 2 have rest: "well_formed (segments ?rest)" by simp
    have scan: "segments (c # cs) = segment_of (fst (match_at cs)) # segments ?rest"
      using True by (simp add: segments_def scan.simps)
    show ?thesis
    proof (cases "fst (match_at cs)")
      case (Named name)
      with match_at_names(1) [of cs name] rest scan show ?thesis
        by (simp add: template_of_segments)
    next
      case (Braced name)
      with match_at_names(2) [of cs name] rest scan show ?thesis by simp
    next
      case Escaped
      with rest scan show ?thesis by simp
    next
      case (Text x)
      then show ?thesis
        by (auto simp: match_at_def split: list.splits if_splits)
    next
      case Invalid
      with valid show ?thesis by simp
    qed
  next
    case False
    with 2 show ?thesis
      by (simp add: segments_def is_valid_def scan.simps)
  qed
qed

lemma segment_names_segments:
  "concat (map segment_names (segments template)) = placeholders template"
proof -
  have "segment_names (segment_of p) = piece_names p" for p
    by (cases p) simp_all
  then show ?thesis
    by (simp add: segments_def placeholders_def comp_def)
qed

subsection \<open>Substitution\<close>

text \<open>
  \<^verbatim>\<open>substitute\<close> on a template that is written as a well-formed sequence of segments, with
  a value for every name: the result is the rendering of the segments.
\<close>

lemma substitute_template_of:
  assumes "well_formed segs" and "set (concat (map segment_names segs)) \<subseteq> dom mapping"
  shows "substitute (template_of segs) mapping = Inr (rendering mapping segs)"
proof -
  have "pattern_sub (convert mapping) (concat (map pieces_of segs)) = Inr (rendering mapping segs)"
    using assms(2)
  proof (induction segs)
    case Nil
    show ?case by (simp add: rendering_def)
  next
    case (Cons seg segs)
    then have rest: "pattern_sub (convert mapping) (concat (map pieces_of segs))
        = Inr (rendering mapping segs)"
      by simp
    have "pattern_sub (convert mapping) (pieces_of seg) = Inr (replacement mapping seg)"
      using Cons.prems by (cases seg) (auto simp: pattern_sub_Text)
    with rest show ?case
      by (simp add: pattern_sub_append rendering_def)
  qed
  with assms(1) show ?thesis
    by (simp add: substitute_def scan_template_of)
qed

text \<open>
  \<^verbatim>\<open>substitute\<close> on a template with an invalid placeholder, with a value for every
  name: \<^verbatim>\<open>ValueError\<close>.
\<close>

lemma substitute_invalid:
  assumes "\<not> is_valid template" and "set (placeholders template) \<subseteq> dom mapping"
  shows "substitute template mapping = Inl ValueError"
proof -
  from assms(1) have "Invalid \<in> set (scan template)"
    by (simp add: is_valid_def)
  moreover have "convert mapping Invalid = Inl ValueError" by simp
  ultimately obtain e where e: "pattern_sub (convert mapping) (scan template) = Inl e"
    by (blast dest: pattern_sub_fails)
  then obtain q where q: "q \<in> set (scan template)" and "convert mapping q = Inl e"
    by (blast dest: pattern_sub_Inl)
  from convert_Inl [OF this(2)] have "e = ValueError"
  proof
    assume "\<exists>k. e = KeyError k \<and> k \<in> set (piece_names q) \<and> mapping k = None"
    then obtain k where "k \<in> set (piece_names q)" and "mapping k = None" by blast
    with q have "k \<in> set (placeholders template)" and "k \<notin> dom mapping"
      by (auto simp: placeholders_def)
    with assms(2) show ?thesis by blast
  qed
  with e show ?thesis by (simp add: substitute_def)
qed

text \<open>
  C4, as the claim states it, fails for a template with a \<^verbatim>\<open>$\<close> that starts neither
  \<^verbatim>\<open>$$\<close> nor a placeholder: the mapping of the example run has a value for the one
  placeholder \<^verbatim>\<open>x\<close> of the script \<^verbatim>\<open>${x} costs $5\<close>, and rendering replaces nothing but
  raises \<^verbatim>\<open>ValueError\<close>.
\<close>

theorem invalid_placeholder_raises:
  "args (example_params\<lparr>script := ''${x} costs $5''\<rparr>) = Some [''x'' \<mapsto> PInt 7]
   \<and> set (placeholders (script (example_params\<lparr>script := ''${x} costs $5''\<rparr>)))
       \<subseteq> dom [''x'' \<mapsto> PInt 7]
   \<and> script_contents (example_params\<lparr>script := ''${x} costs $5''\<rparr>)
       = (Inl ValueError, [Template_substitute ''${x} costs $5'' [''x'' \<mapsto> PInt 7]])
   \<and> main (answer 200 ''OK'' (Str ''Result: true'')) (example_params\<lparr>script := ''${x} costs $5''\<rparr>)
       = (Raised ValueError, [Template_substitute ''${x} costs $5'' [''x'' \<mapsto> PInt 7]])"
proof -
  have s: "scan ''${x} costs $5''
      = Braced ''x'' # map Text '' costs '' @ [Invalid, Text CHR ''5'']"
    by (simp add: scan.simps match_at_def idstart_def idchar_def)
  have "substitute ''${x} costs $5'' [''x'' \<mapsto> PInt 7] = Inl ValueError"
    by (simp add: substitute_def s str_int_def str_nat.simps)
  then show ?thesis
    by (simp add: main_def set_auth_def script_contents_def example_params_def
        placeholders_def s)
qed

text \<open>
  C4, amended. Let the script have no invalid placeholder, that is, be written as a
  sequence of literal text, \<^verbatim>\<open>$$\<close>, \<^verbatim>\<open>${name}\<close> and \<^verbatim>\<open>$name\<close>, where the names are
  identifiers and a bare name goes as far as identifier characters go, and let \<^verbatim>\<open>args\<close>
  have a value for every name. Then the script that \<^verbatim>\<open>main\<close> sends is the text in which
  every \<^verbatim>\<open>${name}\<close> and every \<^verbatim>\<open>$name\<close> is replaced by the string of the value of the
  name, every \<^verbatim>\<open>$$\<close> by one \<^verbatim>\<open>$\<close>, and the literal text is kept. The values are put in
  as they are, whatever they contain: nothing is read a second time. This holds for
  every way of writing the script as such a sequence, and a script without an invalid
  placeholder has one, with the names of its placeholders. A script with an invalid
  placeholder is not rendered: with a value for every name, \<^verbatim>\<open>substitute\<close> raises
  \<^verbatim>\<open>ValueError\<close>, the run does not call \<^verbatim>\<open>fetch_url\<close> and does not end with
  \<^verbatim>\<open>exit_json\<close>.
\<close>

theorem script_contents_renders:
  "(args p = Some mapping \<and> script p = template_of segs \<and> well_formed segs
      \<and> set (concat (map segment_names segs)) \<subseteq> dom mapping \<longrightarrow>
        script_contents p
          = (Inr (rendering mapping segs), [Template_substitute (script p) mapping])
      \<and> (\<forall>m. set_auth p = Inr m \<longrightarrow>
            main fetch_url p
              = (classify (fetch_url (request m (rendering mapping segs))),
                 [Template_substitute (script p) mapping,
                  Fetch_url (request m (rendering mapping segs))])))
   \<and> (args p = Some mapping \<and> is_valid (script p)
      \<and> set (placeholders (script p)) \<subseteq> dom mapping \<longrightarrow>
        (\<exists>segs. well_formed segs \<and> template_of segs = script p
           \<and> concat (map segment_names segs) = placeholders (script p)
           \<and> script_contents p
               = (Inr (rendering mapping segs), [Template_substitute (script p) mapping])))
   \<and> (args p = Some mapping \<and> \<not> is_valid (script p)
      \<and> set (placeholders (script p)) \<subseteq> dom mapping \<longrightarrow>
        script_contents p = (Inl ValueError, [Template_substitute (script p) mapping])
      \<and> Fetch_url c \<notin> set (snd (main fetch_url p))
      \<and> fst (main fetch_url p) \<noteq> Exit_json out)"
proof (intro conjI impI)
  assume a: "args p = Some mapping \<and> script p = template_of segs \<and> well_formed segs
      \<and> set (concat (map segment_names segs)) \<subseteq> dom mapping"
  then have "substitute (script p) mapping = Inr (rendering mapping segs)"
    by (simp add: substitute_template_of)
  with a show sc: "script_contents p
      = (Inr (rendering mapping segs), [Template_substitute (script p) mapping])"
    by (simp add: script_contents_def)
  then show "\<forall>m. set_auth p = Inr m \<longrightarrow>
      main fetch_url p
        = (classify (fetch_url (request m (rendering mapping segs))),
           [Template_substitute (script p) mapping,
            Fetch_url (request m (rendering mapping segs))])"
    by (simp add: main_def)
next
  assume a: "args p = Some mapping \<and> is_valid (script p)
      \<and> set (placeholders (script p)) \<subseteq> dom mapping"
  let ?segs = "segments (script p)"
  from a have wf: "well_formed ?segs" by (simp add: well_formed_segments)
  have t: "template_of ?segs = script p" by (rule template_of_segments)
  have n: "concat (map segment_names ?segs) = placeholders (script p)"
    by (rule segment_names_segments)
  from a n have "set (concat (map segment_names ?segs)) \<subseteq> dom mapping" by simp
  from substitute_template_of [OF wf this]
  have "substitute (script p) mapping = Inr (rendering mapping ?segs)"
    by (simp add: t)
  with a have "script_contents p
      = (Inr (rendering mapping ?segs), [Template_substitute (script p) mapping])"
    by (simp add: script_contents_def)
  with wf t n show "\<exists>segs. well_formed segs \<and> template_of segs = script p
      \<and> concat (map segment_names segs) = placeholders (script p)
      \<and> script_contents p
          = (Inr (rendering mapping segs), [Template_substitute (script p) mapping])"
    by blast
next
  assume a: "args p = Some mapping \<and> \<not> is_valid (script p)
      \<and> set (placeholders (script p)) \<subseteq> dom mapping"
  then have e: "substitute (script p) mapping = Inl ValueError"
    by (simp add: substitute_invalid)
  with a show sc: "script_contents p
      = (Inl ValueError, [Template_substitute (script p) mapping])"
    by (simp add: script_contents_def)
  then have "fst (script_contents p) = Inl ValueError" by simp
  then show "Fetch_url c \<notin> set (snd (main fetch_url p))"
    by (auto elim: main_fetch)
  from sc show "fst (main fetch_url p) \<noteq> Exit_json out"
    by (simp add: main_def split: sum.splits)
qed

theorem script_contents_renders_witness:
  "args (example_params\<lparr>script := ''a=${x} b=$y_1 c=$$$x'',
           args := Some [''x'' \<mapsto> PStr ''$y_1 ${x} $$'', ''y_1'' \<mapsto> PInt 42]\<rparr>)
     = Some [''x'' \<mapsto> PStr ''$y_1 ${x} $$'', ''y_1'' \<mapsto> PInt 42]
   \<and> script (example_params\<lparr>script := ''a=${x} b=$y_1 c=$$$x'',
           args := Some [''x'' \<mapsto> PStr ''$y_1 ${x} $$'', ''y_1'' \<mapsto> PInt 42]\<rparr>)
     = template_of [Literal ''a='', Brace ''x'', Literal '' b='', Bare ''y_1'', Literal '' c='',
         Dollar, Bare ''x'']
   \<and> well_formed [Literal ''a='', Brace ''x'', Literal '' b='', Bare ''y_1'', Literal '' c='',
         Dollar, Bare ''x'']
   \<and> set (concat (map segment_names [Literal ''a='', Brace ''x'', Literal '' b='', Bare ''y_1'',
         Literal '' c='', Dollar, Bare ''x'']))
       \<subseteq> dom [''x'' \<mapsto> PStr ''$y_1 ${x} $$'', ''y_1'' \<mapsto> PInt 42]
   \<and> script_contents (example_params\<lparr>script := ''a=${x} b=$y_1 c=$$$x'',
           args := Some [''x'' \<mapsto> PStr ''$y_1 ${x} $$'', ''y_1'' \<mapsto> PInt 42]\<rparr>)
     = (Inr ''a=$y_1 ${x} $$ b=42 c=$$y_1 ${x} $$'',
        [Template_substitute ''a=${x} b=$y_1 c=$$$x''
           [''x'' \<mapsto> PStr ''$y_1 ${x} $$'', ''y_1'' \<mapsto> PInt 42]])
   \<and> is_valid ''a=${x} b=$y_1 c=$$$x''"
proof -
  let ?segs = "[Literal ''a='', Brace ''x'', Literal '' b='', Bare ''y_1'', Literal '' c='',
      Dollar, Bare ''x'']"
  let ?m = "[''x'' \<mapsto> PStr ''$y_1 ${x} $$'', ''y_1'' \<mapsto> PInt 42]"
  let ?p = "example_params\<lparr>script := ''a=${x} b=$y_1 c=$$$x'', args := Some ?m\<rparr>"
  have a: "args ?p = Some ?m"
    by (simp add: example_params_def)
  have t: "template_of ?segs = ''a=${x} b=$y_1 c=$$$x''"
    by (simp add: template_of_def)
  have s: "script ?p = template_of ?segs"
    by (simp add: t example_params_def)
  have s': "script ?p = ''a=${x} b=$y_1 c=$$$x''"
    by (simp add: example_params_def)
  have wf: "well_formed ?segs"
    by (simp add: template_of_def idstart_def idchar_def)
  have names: "set (concat (map segment_names ?segs)) \<subseteq> dom ?m"
    by simp
  have r: "rendering ?m ?segs = ''a=$y_1 ${x} $$ b=42 c=$$y_1 ${x} $$''"
    by (simp add: rendering_def str_int_def str_nat.simps)
  have v: "is_valid ''a=${x} b=$y_1 c=$$$x''"
    by (simp add: is_valid_def scan.simps match_at_def idstart_def idchar_def)
  from script_contents_renders [of ?p ?m ?segs] a s wf names
  have "script_contents ?p = (Inr (rendering ?m ?segs), [Template_substitute (script ?p) ?m])"
    by blast
  then have "script_contents ?p
      = (Inr ''a=$y_1 ${x} $$ b=42 c=$$y_1 ${x} $$'',
         [Template_substitute ''a=${x} b=$y_1 c=$$$x'' ?m])"
    by (simp only: r s')
  with a s wf names v show ?thesis
    by blast
qed

text \<open>
  C5. When the script has a placeholder whose name is not a key of \<^verbatim>\<open>args\<close>,
  \<^verbatim>\<open>substitute\<close> raises: \<^verbatim>\<open>KeyError\<close> for a placeholder without a key, or
  \<^verbatim>\<open>ValueError\<close> when an invalid placeholder comes first. No text is returned, so the
  placeholder is neither dropped nor kept; the run does not call \<^verbatim>\<open>fetch_url\<close> and does
  not end with \<^verbatim>\<open>exit_json\<close>.
\<close>

theorem missing_key_raises:
  assumes "args p = Some mapping"
    and "name \<in> set (placeholders (script p))" and "mapping name = None"
  shows "(\<exists>e. substitute (script p) mapping = Inl e
            \<and> (e = ValueError
               \<or> (\<exists>k. e = KeyError k \<and> k \<in> set (placeholders (script p)) \<and> mapping k = None)))
       \<and> Fetch_url c \<notin> set (snd (main fetch_url p))
       \<and> fst (main fetch_url p) \<noteq> Exit_json out"
proof -
  from assms(2) obtain piece where piece: "piece \<in> set (scan (script p))"
    and "name \<in> set (piece_names piece)"
    by (auto simp: placeholders_def)
  with assms(3) have "convert mapping piece = Inl (KeyError name)"
    by (cases piece) simp_all
  with piece obtain e where e: "substitute (script p) mapping = Inl e"
    unfolding substitute_def by (blast dest: pattern_sub_fails)
  then obtain q where "q \<in> set (scan (script p))" and "convert mapping q = Inl e"
    unfolding substitute_def by (blast dest: pattern_sub_Inl)
  with convert_Inl [of mapping q e]
  have kind: "e = ValueError
      \<or> (\<exists>k. e = KeyError k \<and> k \<in> set (placeholders (script p)) \<and> mapping k = None)"
    by (auto simp: placeholders_def)
  from e assms(1) have "fst (script_contents p) = Inl e"
    by (simp add: script_contents_def)
  then have "Fetch_url c \<notin> set (snd (main fetch_url p))"
    by (auto elim: main_fetch)
  moreover from e assms(1) have "fst (main fetch_url p) \<noteq> Exit_json out"
    by (simp add: main_def script_contents_def split: sum.splits)
  ultimately show ?thesis
    using e kind by blast
qed

theorem missing_key_raises_witness:
  "args (example_params\<lparr>script := ''println(${x}, $y)''\<rparr>) = Some [''x'' \<mapsto> PInt 7]
   \<and> ''y'' \<in> set (placeholders (script (example_params\<lparr>script := ''println(${x}, $y)''\<rparr>)))
   \<and> [''x'' \<mapsto> PInt 7] ''y'' = None
   \<and> main (answer 200 ''OK'' (Str ''Result: true'')) (example_params\<lparr>script := ''println(${x}, $y)''\<rparr>)
       = (Raised (KeyError ''y''),
          [Template_substitute ''println(${x}, $y)'' [''x'' \<mapsto> PInt 7]])"
proof -
  let ?p = "example_params\<lparr>script := ''println(${x}, $y)''\<rparr>"
  have a: "args ?p = Some [''x'' \<mapsto> PInt 7]"
    by (simp add: example_params_def)
  have s: "scan ''println(${x}, $y)''
      = map Text ''println('' @ Braced ''x'' # map Text '', '' @ [Named ''y'', Text CHR '')'']"
    by (simp add: scan.simps match_at_def idstart_def idchar_def)
  have y: "''y'' \<in> set (placeholders (script ?p))"
    by (simp add: example_params_def placeholders_def s)
  have n: "[''x'' \<mapsto> PInt 7] ''y'' = None"
    by simp
  have "substitute ''println(${x}, $y)'' [''x'' \<mapsto> PInt 7] = Inl (KeyError ''y'')"
    by (simp add: substitute_def s str_int_def str_nat.simps)
  then have "main (answer 200 ''OK'' (Str ''Result: true'')) ?p
      = (Raised (KeyError ''y''), [Template_substitute ''println(${x}, $y)'' [''x'' \<mapsto> PInt 7]])"
    by (simp add: main_def set_auth_def script_contents_def example_params_def)
  with a y n missing_key_raises [OF a y n] show ?thesis
    by blast
qed



subsection \<open>Rendering without arguments\<close>

text \<open>
  C6, as the claim states it, fails for a mapping that is given but empty: \<^verbatim>\<open>main\<close>
  asks whether \<^verbatim>\<open>args\<close> is \<^verbatim>\<open>None\<close>, and an empty dictionary is not. The template is
  then scanned: \<^verbatim>\<open>$$\<close> becomes \<^verbatim>\<open>$\<close>, and a \<^verbatim>\<open>$\<close> that starts no placeholder raises
  \<^verbatim>\<open>ValueError\<close>.
\<close>

theorem empty_args_scanned:
  "fst (script_contents (example_params\<lparr>script := ''echo $$HOME'', args := Some Map.empty\<rparr>))
     = Inr ''echo $HOME''
   \<and> fst (script_contents (example_params\<lparr>script := ''echo $$HOME'', args := Some Map.empty\<rparr>))
     \<noteq> Inr (script (example_params\<lparr>script := ''echo $$HOME'', args := Some Map.empty\<rparr>))
   \<and> fst (script_contents (example_params\<lparr>script := ''cost in $'', args := Some Map.empty\<rparr>))
     = Inl ValueError"
  by (simp add: script_contents_def example_params_def substitute_def scan.simps match_at_def
      idstart_def idchar_def)

text \<open>
  C6, amended. When \<^verbatim>\<open>args\<close> is absent the script is taken as it is: \<^verbatim>\<open>substitute\<close> is
  not called, and the run posts the script itself once the credentials are accepted. When
  \<^verbatim>\<open>args\<close> is given, empty or not, \<^verbatim>\<open>substitute\<close> is called, and it returns the script as
  it is when the script contains no \<^verbatim>\<open>$\<close>.
\<close>

theorem absent_args_verbatim:
  "(args p = None \<longrightarrow>
      script_contents p = (Inr (script p), [])
    \<and> (\<forall>m. set_auth p = Inr m \<longrightarrow>
          main fetch_url p = (classify (fetch_url (request m (script p))),
                              [Fetch_url (request m (script p))])))
   \<and> (args p = Some mapping \<and> CHR ''$'' \<notin> set (script p) \<longrightarrow>
        script_contents p = (Inr (script p), [Template_substitute (script p) mapping]))"
proof -
  have "substitute s mapping = Inr s" if "CHR ''$'' \<notin> set s" for s
    using that scan_text [of s "[]"] by (simp add: substitute_def pattern_sub_Text)
  then show ?thesis
    by (simp add: script_contents_def main_def)
qed

theorem absent_args_verbatim_witness:
  "args (example_params\<lparr>script := ''echo $HOME ${'', args := None\<rparr>) = None
   \<and> script_contents (example_params\<lparr>script := ''echo $HOME ${'', args := None\<rparr>)
       = (Inr ''echo $HOME ${'', [])
   \<and> args (example_params\<lparr>args := Some Map.empty, script := ''println(1)''\<rparr>) = Some Map.empty
   \<and> CHR ''$'' \<notin> set (script (example_params\<lparr>args := Some Map.empty, script := ''println(1)''\<rparr>))
   \<and> script_contents (example_params\<lparr>args := Some Map.empty, script := ''println(1)''\<rparr>)
       = (Inr ''println(1)'', [Template_substitute ''println(1)'' Map.empty])"
  using absent_args_verbatim [of "example_params\<lparr>script := ''echo $HOME ${'', args := None\<rparr>"]
    absent_args_verbatim [of "example_params\<lparr>args := Some Map.empty, script := ''println(1)''\<rparr>"
      _ Map.empty]
  by (simp add: example_params_def)

end
